theory Spec2Isabelle
  imports Main
begin

section \<open>JavaScript values, strings and rows\<close>

text \<open>
  The Snowflake node handles rows delivered by the vendor SDK. A row is a JavaScript
  object that maps column names to scalar values. It is modelled as an association list
  whose order is the order in which \<^verbatim>\<open>Object.keys\<close> enumerates the own properties of
  the object (for column names that are not array indices this is insertion order).
  Numbers are the integer-valued ones, for which \<^verbatim>\<open>String(n)\<close> is the decimal
  numeral; strings are lists of code units.
\<close>

datatype jsval = JNull | JUndefined | JStr string | JNum int | JBool bool

type_synonym row = "(string \<times> jsval) list"

text \<open>\<^verbatim>\<open>Object.keys(row)\<close> and \<^verbatim>\<open>Object.values(row)\<close>.\<close>

definition Object_keys :: "row \<Rightarrow> string list" where
  "Object_keys r = map fst r"

definition Object_values :: "row \<Rightarrow> jsval list" where
  "Object_values r = map snd r"

text \<open>The property read \<^verbatim>\<open>row[h]\<close>: a missing property reads as \<^verbatim>\<open>undefined\<close>.\<close>

definition getProp :: "row \<Rightarrow> string \<Rightarrow> jsval" where
  "getProp r h = (case map_of r h of None \<Rightarrow> JUndefined | Some v \<Rightarrow> v)"

text \<open>\<^verbatim>\<open>xs.join(sep)\<close> on an array of strings.\<close>

fun join :: "string \<Rightarrow> string list \<Rightarrow> string" where
  "join sep [] = []"
| "join sep [x] = x"
| "join sep (x # y # ys) = x @ sep @ join sep (y # ys)"

text \<open>Decimal rendering, as \<^verbatim>\<open>String(n)\<close> and template literals produce it.\<close>

definition digit_char :: "nat \<Rightarrow> char" where
  "digit_char d = ''0123456789'' ! (d mod 10)"

fun string_of_nat :: "nat \<Rightarrow> string" where
  "string_of_nat n =
     (if n < 10 then [digit_char n] else string_of_nat (n div 10) @ [digit_char (n mod 10)])"

declare string_of_nat.simps [simp del]

definition string_of_int :: "int \<Rightarrow> string" where
  "string_of_int i = (if i < 0 then CHR ''-'' # string_of_nat (nat (- i)) else string_of_nat (nat i))"

text \<open>\<^verbatim>\<open>String(val)\<close> on the scalars of a row.\<close>

fun String_of :: "jsval \<Rightarrow> string" where
  "String_of JNull = ''null''"
| "String_of JUndefined = ''undefined''"
| "String_of (JStr s) = s"
| "String_of (JNum n) = string_of_int n"
| "String_of (JBool b) = (if b then ''true'' else ''false'')"

text \<open>\<^verbatim>\<open>s.replace(/c/g, rep)\<close> for a pattern that is one literal character.\<close>

definition replace_all :: "char \<Rightarrow> string \<Rightarrow> string \<Rightarrow> string" where
  "replace_all c rep s = concat (map (\<lambda>x. if x = c then rep else [x]) s)"

section \<open>The streaming query executor\<close>

datatype error = Error string

text \<open>
  What the SDK does with one \<^verbatim>\<open>conn.execute({streamResult: true, complete})\<close>: it
  calls \<^verbatim>\<open>complete\<close> once, with an error or with a statement whose row stream then
  emits a sequence of events.
\<close>

datatype stream_event = Data row | StreamError error | End

datatype sdk_run = CompleteError error | CompleteOk "stream_event list"

datatype promise = Pending | Resolved | Rejected error

text \<open>
  \<^verbatim>\<open>resolve\<close> and \<^verbatim>\<open>reject\<close> settle a promise that is still pending and do
  nothing otherwise. The reactions chained on the promise (\<^verbatim>\<open>.then\<close>,
  \<^verbatim>\<open>.catch\<close>) run once, when it settles; \<open>react\<close> is their effect on the state
  that the callbacks share.
\<close>

definition settle :: "(promise \<Rightarrow> 's \<Rightarrow> 's) \<Rightarrow> promise \<Rightarrow> promise \<times> 's \<Rightarrow> promise \<times> 's" where
  "settle react v ps = (case fst ps of Pending \<Rightarrow> (v, react v (snd ps)) | _ \<Rightarrow> ps)"

text \<open>The three handlers registered on \<^verbatim>\<open>stmt.streamRows()\<close>.\<close>

fun stream_step ::
  "(row \<Rightarrow> 's \<Rightarrow> 's) \<Rightarrow> (promise \<Rightarrow> 's \<Rightarrow> 's) \<Rightarrow> promise \<times> 's \<Rightarrow> stream_event \<Rightarrow> promise \<times> 's" where
  "stream_step onRow react ps (Data r) = (fst ps, onRow r (snd ps))"
| "stream_step onRow react ps (StreamError e) = settle react (Rejected e) ps"
| "stream_step onRow react ps End = settle react Resolved ps"

definition executeStream ::
  "(row \<Rightarrow> 's \<Rightarrow> 's) \<Rightarrow> (promise \<Rightarrow> 's \<Rightarrow> 's) \<Rightarrow> 's \<Rightarrow> sdk_run \<Rightarrow> promise \<times> 's" where
  "executeStream onRow react s run =
     (case run of
        CompleteError e \<Rightarrow> settle react (Rejected e) (Pending, s)
      | CompleteOk evs \<Rightarrow> foldl (stream_step onRow react) (Pending, s) evs)"

text \<open>The rows with which the executor invokes its callback, in invocation order.\<close>

definition onRow_calls :: "sdk_run \<Rightarrow> row list" where
  "onRow_calls run = snd (executeStream (\<lambda>r rs. rs @ [r]) (\<lambda>_ rs. rs) [] run)"

section \<open>The CSV bridge\<close>

text \<open>
  The \<^verbatim>\<open>Readable\<close> that carries the CSV text: the chunks pushed so far, whether
  \<^verbatim>\<open>push(null)\<close> closed it, and the error it was destroyed with. A stream that
  is closed or destroyed takes no further chunk.
\<close>

record readable =
  chunks :: "string list"
  ended :: bool
  destroyed :: "error option"

definition newReadable :: readable where
  "newReadable = \<lparr>chunks = [], ended = False, destroyed = None\<rparr>"

definition is_open :: "readable \<Rightarrow> bool" where
  "is_open s = (\<not> ended s \<and> destroyed s = None)"

definition push :: "string \<Rightarrow> readable \<Rightarrow> readable" where
  "push chunk s = (if is_open s then s\<lparr>chunks := chunks s @ [chunk]\<rparr> else s)"

definition push_null :: "readable \<Rightarrow> readable" where
  "push_null s = (if is_open s then s\<lparr>ended := True\<rparr> else s)"

definition destroy_stream :: "error \<Rightarrow> readable \<Rightarrow> readable" where
  "destroy_stream e s = (if destroyed s = None then s\<lparr>destroyed := Some e\<rparr> else s)"

text \<open>The variables the callbacks of one CSV export close over.\<close>

record csv_state =
  headers :: "string list option"
  rowCount :: nat
  streamError :: "error option"
  csvStream :: readable

definition csv_init :: csv_state where
  "csv_init = \<lparr>headers = None, rowCount = 0, streamError = None, csvStream = newReadable\<rparr>"

text \<open>The serialisation of one field value, and of the header and data lines.\<close>

definition csvValue :: "jsval \<Rightarrow> string" where
  "csvValue val =
     (if val = JNull \<or> val = JUndefined then ''''
      else (case val of
              JStr s \<Rightarrow> [CHR 0x22] @ replace_all (CHR 0x22) [CHR 0x22, CHR 0x22] s @ [CHR 0x22]
            | _ \<Rightarrow> String_of val))"

definition headerLine :: "string list \<Rightarrow> string" where
  "headerLine hs = join '','' (map (\<lambda>h. [CHR 0x22] @ h @ [CHR 0x22]) hs) @ ''\<newline>''"

definition dataLine :: "string list \<Rightarrow> row \<Rightarrow> string" where
  "dataLine hs r = join '','' (map (\<lambda>h. csvValue (getProp r h)) hs) @ ''\<newline>''"

text \<open>
  The \<^verbatim>\<open>onRow\<close> callback. \<^verbatim>\<open>!headers\<close> holds only while \<^verbatim>\<open>headers\<close> is
  \<^verbatim>\<open>null\<close>: an empty array is truthy.
\<close>

definition onRow :: "row \<Rightarrow> csv_state \<Rightarrow> csv_state" where
  "onRow r st =
     (let st1 = (case headers st of
                   None \<Rightarrow> st\<lparr>headers := Some (Object_keys r),
                              csvStream := push (headerLine (Object_keys r)) (csvStream st)\<rparr>
                 | Some _ \<Rightarrow> st);
          hs = (case headers st1 of None \<Rightarrow> [] | Some hs \<Rightarrow> hs)
      in st1\<lparr>csvStream := push (dataLine hs r) (csvStream st1), rowCount := rowCount st1 + 1\<rparr>)"

text \<open>
  The reactions \<^verbatim>\<open>.then(() => csvStream.push(null))\<close> and
  \<^verbatim>\<open>.catch((error) => { streamError = error; csvStream.destroy(error) })\<close>.
\<close>

definition onSettled :: "promise \<Rightarrow> csv_state \<Rightarrow> csv_state" where
  "onSettled p st =
     (case p of
        Pending \<Rightarrow> st
      | Resolved \<Rightarrow> st\<lparr>csvStream := push_null (csvStream st)\<rparr>
      | Rejected e \<Rightarrow> st\<lparr>streamError := Some e, csvStream := destroy_stream e (csvStream st)\<rparr>)"

text \<open>The bridge fed with a sequence of rows, one \<^verbatim>\<open>onRow\<close> call per row.\<close>

definition feed :: "row list \<Rightarrow> csv_state \<Rightarrow> csv_state" where
  "feed rows st = foldl (\<lambda>s r. onRow r s) st rows"

section \<open>Credentials and connection options\<close>

text \<open>
  The functions of the crypto library and the host's \<^verbatim>\<open>formatPrivateKey\<close> are
  parameters; \<open>'k\<close> is the type of key objects. \<^verbatim>\<open>createPrivateKey\<close> fails on a
  key it cannot read or decrypt.
\<close>

record 'k crypto =
  formatPrivateKey :: "string \<Rightarrow> string"
  createPrivateKey :: "string \<Rightarrow> string option \<Rightarrow> error + 'k"
  exportPkcs8 :: "'k \<Rightarrow> string"

record common_fields =
  account :: "string option"
  database :: "string option"
  schema :: "string option"
  warehouse :: "string option"
  role :: "string option"
  clientSessionKeepAlive :: "bool option"

text \<open>
  The three shapes of \<^verbatim>\<open>SnowflakeCredential\<close>: password (username, password),
  key pair (username, privateKey, passphrase) and OAuth2 (the access token of
  \<^verbatim>\<open>oauthTokenData\<close>).
\<close>

datatype auth =
    PasswordAuth "string option" "string option"
  | KeyPairAuth string string "string option"
  | OAuth2Auth "string option"

record credential =
  common :: common_fields
  auth :: auth

record connection_options =
  opt_common :: common_fields
  authenticator :: "string option"
  token :: "string option"
  username :: "string option"
  privateKey :: "string option"
  password :: "string option"

text \<open>\<^verbatim>\<open>!credential.passphrase\<close> holds for a missing and for an empty passphrase.\<close>

definition extractPrivateKey :: "'k crypto \<Rightarrow> string \<Rightarrow> string option \<Rightarrow> error + string" where
  "extractPrivateKey C pk passphrase =
     (let key = formatPrivateKey C pk
      in if passphrase = None \<or> passphrase = Some [] then Inr key
         else (case createPrivateKey C key passphrase of
                 Inl e \<Rightarrow> Inl e
               | Inr privateKeyObject \<Rightarrow> Inr (exportPkcs8 C privateKeyObject)))"

definition getConnectionOptions :: "'k crypto \<Rightarrow> credential \<Rightarrow> error + connection_options" where
  "getConnectionOptions C cred =
     (let connectionOptions = \<lparr>opt_common = common cred, authenticator = None, token = None,
                                username = None, privateKey = None, password = None\<rparr>
      in case auth cred of
           OAuth2Auth access_token \<Rightarrow>
             Inr (connectionOptions\<lparr>authenticator := Some ''OAUTH'', token := access_token\<rparr>)
         | KeyPairAuth user pk passphrase \<Rightarrow>
             (case extractPrivateKey C pk passphrase of
                Inl e \<Rightarrow> Inl e
              | Inr k \<Rightarrow> Inr (connectionOptions\<lparr>authenticator := Some ''SNOWFLAKE_JWT'',
                                                  username := Some user, privateKey := Some k\<rparr>))
         | PasswordAuth user pw \<Rightarrow> Inr (connectionOptions\<lparr>username := user, password := pw\<rparr>))"

section \<open>The connection and its adapters\<close>

text \<open>
  A bind list holds scalars (one statement) or one array of scalars per row (a bulk
  insert). Every call on the SDK is recorded in a log; the SDK's answer to a call may
  depend on all calls so far.
\<close>

datatype bind = BVal jsval | BRow "jsval list"

datatype call =
    CreateConnection connection_options
  | Connect
  | Execute string "bind list"
  | ExecuteStream string "bind list"
  | Destroy

text \<open>
  An awaited operation returns, throws, or never completes (a row stream that emits
  neither \<^verbatim>\<open>end\<close> nor \<^verbatim>\<open>error\<close> leaves its promise pending for ever).
\<close>

datatype 'a outcome = Returned 'a | Threw error | Hangs

text \<open>
  The environment of one invocation: the answers of the SDK, and the host helpers that
  are not part of the node (\<^verbatim>\<open>prepareBinaryData\<close>, which drains the CSV stream into
  a binary payload of type \<open>'b\<close>, and the substitution of the expressions of a query).
\<close>

record 'b env =
  connectResult :: "call list \<Rightarrow> error option"
  executeResult :: "call list \<Rightarrow> error + row list"
  streamResult :: "call list \<Rightarrow> sdk_run"
  destroyResult :: "call list \<Rightarrow> error option"
  prepareBinaryData :: "readable \<Rightarrow> error + 'b"
  resolveExpressions :: "nat \<Rightarrow> string \<Rightarrow> string"

text \<open>Sequencing of awaited operations: a throw or a hang ends the invocation.\<close>

definition andThen ::
  "call list \<times> 'a outcome \<Rightarrow> (call list \<Rightarrow> 'a \<Rightarrow> call list \<times> 'c outcome) \<Rightarrow> call list \<times> 'c outcome" where
  "andThen m f =
     (case m of
        (log, Returned x) \<Rightarrow> f log x
      | (log, Threw e) \<Rightarrow> (log, Threw e)
      | (log, Hangs) \<Rightarrow> (log, Hangs))"

definition connect :: "'b env \<Rightarrow> call list \<Rightarrow> call list \<times> unit outcome" where
  "connect env log =
     (let log' = log @ [Connect]
      in (log', case connectResult env log' of Some e \<Rightarrow> Threw e | None \<Rightarrow> Returned ()))"

definition destroy :: "'b env \<Rightarrow> call list \<Rightarrow> call list \<times> unit outcome" where
  "destroy env log =
     (let log' = log @ [Destroy]
      in (log', case destroyResult env log' of Some e \<Rightarrow> Threw e | None \<Rightarrow> Returned ()))"

definition execute :: "'b env \<Rightarrow> call list \<Rightarrow> string \<Rightarrow> bind list \<Rightarrow> call list \<times> row list outcome" where
  "execute env log sqlText binds =
     (let log' = log @ [Execute sqlText binds]
      in (log', case executeResult env log' of Inl e \<Rightarrow> Threw e | Inr rows \<Rightarrow> Returned rows))"

section \<open>The node\<close>

text \<open>\<^verbatim>\<open>s.split(',')\<close>: the pieces between commas; the empty string gives one empty piece.\<close>

fun split_comma :: "string \<Rightarrow> string list" where
  "split_comma [] = [[]]"
| "split_comma (c # cs) =
     (if c = CHR '','' then [] # split_comma cs
      else (case split_comma cs of [] \<Rightarrow> [[c]] | w # ws \<Rightarrow> (c # w) # ws))"

text \<open>\<^verbatim>\<open>s.trim()\<close>: the white space and line terminators among the code units below 256.\<close>

definition is_space :: "char \<Rightarrow> bool" where
  "is_space c = (c \<in> set [CHR 0x09, CHR 0x0A, CHR 0x0B, CHR 0x0C, CHR 0x0D, CHR 0x20, CHR 0xA0])"

definition trim :: "string \<Rightarrow> string" where
  "trim s = rev (dropWhile is_space (rev (dropWhile is_space s)))"

text \<open>
  Modelled from the spec: the host helper \<^verbatim>\<open>copyInputItems(items, columns)\<close> is not
  among the sources. By the spec the binds of a row are its ordered column values: the
  copy of an input row holds, for each listed column in order, the value the row has
  for it.
\<close>

definition copyInputItems :: "row list \<Rightarrow> string list \<Rightarrow> row list" where
  "copyInputItems items cols = map (\<lambda>item. map (\<lambda>c. (c, getProp item c)) cols) items"

text \<open>The node parameters; \<open>p_query\<close> and \<open>p_outputFormat\<close> are read per input item.\<close>

record params =
  p_operation :: string
  p_query :: "nat \<Rightarrow> string"
  p_outputFormat :: "nat \<Rightarrow> string"
  p_table :: string
  p_columns :: string
  p_updateKey :: string

text \<open>
  The output records: for a CSV export the row count, the message, the binary payload
  and the index of the paired input item; otherwise a json object and the index of its
  paired item.
\<close>

datatype 'b node_output = CsvOut nat string 'b nat | JsonOut row nat

text \<open>
  One iteration of the \<^verbatim>\<open>executeQuery\<close> loop. In the CSV branch the row stream runs
  while \<^verbatim>\<open>prepareBinaryData\<close> drains the \<^verbatim>\<open>Readable\<close>; the helper completes once
  the stream is closed or destroyed, so it is applied to the stream the callbacks leave
  behind, and a promise that stays pending leaves the invocation waiting.
\<close>

definition executeQueryItem ::
  "'b env \<Rightarrow> params \<Rightarrow> nat \<Rightarrow> call list \<Rightarrow> call list \<times> 'b node_output list outcome" where
  "executeQueryItem env P i log =
     (let query = resolveExpressions env i (p_query P i)
      in if p_outputFormat P i = ''csv'' then
           (let log' = log @ [ExecuteStream query []];
                ps = executeStream onRow onSettled csv_init (streamResult env log');
                st = snd ps
            in if fst ps = Pending then (log', Hangs)
               else (case prepareBinaryData env (csvStream st) of
                       Inl e \<Rightarrow> (log', Threw e)
                     | Inr binaryData \<Rightarrow>
                         (case streamError st of
                            Some e \<Rightarrow> (log', Threw e)
                          | None \<Rightarrow>
                              (log', Returned
                                 [CsvOut (rowCount st)
                                    (''Exported '' @ string_of_nat (rowCount st) @ '' rows to CSV'')
                                    binaryData i]))))
         else andThen (execute env log query [])
                (\<lambda>log' responseData. (log', Returned (map (\<lambda>r. JsonOut r i) responseData))))"

fun executeQueryLoop ::
  "'b env \<Rightarrow> params \<Rightarrow> nat list \<Rightarrow> call list \<Rightarrow> 'b node_output list \<Rightarrow> call list \<times> 'b node_output list outcome" where
  "executeQueryLoop env P [] log returnData = (log, Returned returnData)"
| "executeQueryLoop env P (i # is) log returnData =
     andThen (executeQueryItem env P i log)
       (\<lambda>log' outs. executeQueryLoop env P is log' (returnData @ outs))"

text \<open>The json records \<^verbatim>\<open>data.forEach((d, i) => ...)\<close> appends to the output.\<close>

definition jsonOutputs :: "row list \<Rightarrow> 'b node_output list" where
  "jsonOutputs data = map (\<lambda>(d, i). JsonOut d i) (zip data [0..<length data])"

definition insertQuery :: "string \<Rightarrow> string list \<Rightarrow> string" where
  "insertQuery table columns =
     ''INSERT INTO '' @ table @ ''('' @ join '','' columns @ '') VALUES (''
       @ join '','' (map (\<lambda>_. ''?'') columns) @ '')''"

definition insertOp ::
  "'b env \<Rightarrow> params \<Rightarrow> row list \<Rightarrow> call list \<Rightarrow> 'b node_output list \<Rightarrow> call list \<times> 'b node_output list outcome" where
  "insertOp env P items log returnData =
     (let table = p_table P;
          columns = map trim (split_comma (p_columns P));
          query = insertQuery table columns;
          data = copyInputItems items columns;
          binds = map (\<lambda>element. BRow (Object_values element)) data
      in andThen (execute env log query binds)
           (\<lambda>log' _. (log', Returned (returnData @ jsonOutputs data))))"

definition updateColumns :: "string \<Rightarrow> string \<Rightarrow> string list" where
  "updateColumns columnString updateKey =
     (let columns = map trim (split_comma columnString)
      in if updateKey \<notin> set columns then updateKey # columns else columns)"

definition updateQuery :: "string \<Rightarrow> string list \<Rightarrow> string \<Rightarrow> string" where
  "updateQuery table columns updateKey =
     ''UPDATE '' @ table @ '' SET '' @ join '','' (map (\<lambda>column. column @ '' = ?'') columns)
       @ '' WHERE '' @ updateKey @ '' = ?;''"

text \<open>The loop \<^verbatim>\<open>for (let i = 0; i < binds.length; i++) await execute(...)\<close>.\<close>

fun executeEach :: "'b env \<Rightarrow> string \<Rightarrow> bind list list \<Rightarrow> call list \<Rightarrow> call list \<times> unit outcome" where
  "executeEach env query [] log = (log, Returned ())"
| "executeEach env query (b # bs) log =
     andThen (execute env log query b) (\<lambda>log' _. executeEach env query bs log')"

definition updateOp ::
  "'b env \<Rightarrow> params \<Rightarrow> row list \<Rightarrow> call list \<Rightarrow> 'b node_output list \<Rightarrow> call list \<times> 'b node_output list outcome" where
  "updateOp env P items log returnData =
     (let table = p_table P;
          updateKey = p_updateKey P;
          columns = updateColumns (p_columns P) updateKey;
          query = updateQuery table columns updateKey;
          data = copyInputItems items columns;
          binds = map (\<lambda>element. map BVal (Object_values element @ [getProp element updateKey])) data
      in andThen (executeEach env query binds log)
           (\<lambda>log' _. (log', Returned (returnData @ jsonOutputs data))))"

text \<open>
  The three \<^verbatim>\<open>if (operation === ...)\<close> blocks run one after the other on the same
  \<^verbatim>\<open>returnData\<close>.
\<close>

definition runOperation ::
  "'b env \<Rightarrow> params \<Rightarrow> row list \<Rightarrow> call list \<Rightarrow> call list \<times> 'b node_output list outcome" where
  "runOperation env P items log =
     andThen (if p_operation P = ''executeQuery''
              then executeQueryLoop env P [0..<length items] log []
              else (log, Returned []))
       (\<lambda>log1 returnData1.
          andThen (if p_operation P = ''insert''
                   then insertOp env P items log1 returnData1
                   else (log1, Returned returnData1))
            (\<lambda>log2 returnData2.
               if p_operation P = ''update''
               then updateOp env P items log2 returnData2
               else (log2, Returned returnData2)))"

text \<open>
  The \<^verbatim>\<open>execute\<close> method of the node: connection options from the credential, connect,
  the selected operation, destroy. The result is the log of SDK calls and the outcome of
  the invocation.
\<close>

definition Snowflake_execute ::
  "'k crypto \<Rightarrow> 'b env \<Rightarrow> credential \<Rightarrow> params \<Rightarrow> row list \<Rightarrow> call list \<times> 'b node_output list list outcome" where
  "Snowflake_execute C env credentials P items =
     (case getConnectionOptions C credentials of
        Inl e \<Rightarrow> ([], Threw e)
      | Inr connectionOptions \<Rightarrow>
          andThen (connect env [CreateConnection connectionOptions])
            (\<lambda>log1 _.
               andThen (runOperation env P items log1)
                 (\<lambda>log2 returnData.
                    andThen (destroy env log2) (\<lambda>log3 _. (log3, Returned [returnData])))))"

section \<open>The field serialisation in the words of the specification\<close>



text \<open>Reading a decimal numeral back.\<close>

definition digit_value :: "char \<Rightarrow> nat" where
  "digit_value c = of_char c - 48"

definition decimal_value :: "string \<Rightarrow> nat" where
  "decimal_value s = foldl (\<lambda>a c. 10 * a + digit_value c) 0 s"

section \<open>Auxiliary functions\<close>

text \<open>The rows carried by the \<^verbatim>\<open>data\<close> events of an event sequence.\<close>

fun data_rows :: "stream_event list \<Rightarrow> row list" where
  "data_rows [] = []"
| "data_rows (Data r # evs) = r # data_rows evs"
| "data_rows (ev # evs) = data_rows evs"

section \<open>The private key in the words of the specification\<close>

text \<open>
  By the specification the private key of a key-pair credential is the PEM key, read
  with its optional passphrase and exported as PKCS8.
\<close>

definition spec_pkcs8 :: "'k crypto \<Rightarrow> string \<Rightarrow> string option \<Rightarrow> error + string" where
  "spec_pkcs8 C key passphrase =
     (case createPrivateKey C key passphrase of
        Inl e \<Rightarrow> Inl e
      | Inr privateKeyObject \<Rightarrow> Inr (exportPkcs8 C privateKeyObject))"

section \<open>Sample inputs\<close>

text \<open>
  A crypto library on tagged keys: a PEM text is a six character tag that names its
  encoding, followed by the key material; a key object is the key material.
\<close>

definition tagged_crypto :: "string crypto" where
  "tagged_crypto =
     \<lparr>formatPrivateKey = (\<lambda>s. s),
      createPrivateKey = (\<lambda>key passphrase. Inr (drop 6 key)),
      exportPkcs8 = (\<lambda>k. ''PKCS8:'' @ k)\<rparr>"

definition sample_common :: common_fields where
  "sample_common =
     \<lparr>account = Some ''acme'', database = Some ''db'', schema = None, warehouse = None,
      role = None, clientSessionKeepAlive = None\<rparr>"

definition sample_credential :: credential where
  "sample_credential = \<lparr>common = sample_common, auth = PasswordAuth (Some ''ann'') (Some ''pw'')\<rparr>"

definition sample_options :: connection_options where
  "sample_options =
     \<lparr>opt_common = sample_common, authenticator = None, token = None,
      username = Some ''ann'', privateKey = None, password = Some ''pw''\<rparr>"

text \<open>
  An SDK whose connect and destroy succeed, with the given answers to the statements;
  the binary data helper joins the chunks of a stream, and fails with the error of a
  destroyed stream.
\<close>

definition sdk_env :: "(call list \<Rightarrow> error + row list) \<Rightarrow> (call list \<Rightarrow> sdk_run) \<Rightarrow> string env" where
  "sdk_env ex st =
     \<lparr>connectResult = (\<lambda>_. None), executeResult = ex, streamResult = st,
      destroyResult = (\<lambda>_. None),
      prepareBinaryData = (\<lambda>s. case destroyed s of Some e \<Rightarrow> Inl e | None \<Rightarrow> Inr (concat (chunks s))),
      resolveExpressions = (\<lambda>_ q. q)\<rparr>"

definition sample_params :: "string \<Rightarrow> string \<Rightarrow> string \<Rightarrow> params" where
  "sample_params operation columns updateKey =
     \<lparr>p_operation = operation, p_query = (\<lambda>_. ''SELECT * FROM t''), p_outputFormat = (\<lambda>_. ''csv''),
      p_table = ''t'', p_columns = columns, p_updateKey = updateKey\<rparr>"

section \<open>Properties of the string helpers\<close>

lemma split_comma_not_Nil: "split_comma s \<noteq> []"
  by (induction s) (simp_all split: list.split)

lemma join_Cons_head: "join sep ((c # w) # ws) = c # join sep (w # ws)"
  by (cases ws) simp_all

lemma join_split_comma: "join '','' (split_comma s) = s"
proof (induction s)
  case Nil
  then show ?case by simp
next
  case (Cons c cs)
  obtain w ws where w: "split_comma cs = w # ws"
    using split_comma_not_Nil[of cs] by (cases "split_comma cs") simp_all
  show ?case
  proof (cases "c = CHR '',''")
    case True
    then show ?thesis using Cons.IH w by simp
  next
    case False
    then show ?thesis using Cons.IH w by (simp add: join_Cons_head)
  qed
qed

lemma split_comma_no_comma: "w \<in> set (split_comma s) \<Longrightarrow> CHR '','' \<notin> set w"
proof (induction s arbitrary: w)
  case Nil
  then show ?case by simp
next
  case (Cons c cs)
  obtain v vs where v: "split_comma cs = v # vs"
    using split_comma_not_Nil[of cs] by (cases "split_comma cs") simp_all
  then have IH: "CHR '','' \<notin> set v" "\<And>u. u \<in> set vs \<Longrightarrow> CHR '','' \<notin> set u"
    using Cons.IH by simp_all
  show ?case
  proof (cases "c = CHR '',''")
    case True
    then show ?thesis using Cons.prems v IH by auto
  next
    case False
    then show ?thesis using Cons.prems v IH by auto
  qed
qed

lemma length_split_comma: "length (split_comma s) = Suc (count_list s (CHR '',''))"
proof (induction s)
  case Nil
  then show ?case by simp
next
  case (Cons c cs)
  obtain v vs where v: "split_comma cs = v # vs"
    using split_comma_not_Nil[of cs] by (cases "split_comma cs") simp_all
  then show ?case using Cons.IH by simp
qed

lemma trim_suffix:
  "dropWhile is_space s = trim s @ rev (takeWhile is_space (rev (dropWhile is_space s)))"
proof -
  let ?t = "dropWhile is_space s"
  have "?t = rev (rev ?t)" by simp
  also have "\<dots> = rev (takeWhile is_space (rev ?t) @ dropWhile is_space (rev ?t))"
    by (simp only: takeWhile_dropWhile_id)
  also have "\<dots> = trim s @ rev (takeWhile is_space (rev ?t))"
    by (simp only: rev_append trim_def)
  finally show ?thesis .
qed

lemma trim_decompose:
  "\<exists>a b. s = a @ trim s @ b \<and> list_all is_space a \<and> list_all is_space b"
proof -
  let ?a = "takeWhile is_space s"
  let ?b = "rev (takeWhile is_space (rev (dropWhile is_space s)))"
  have "s = ?a @ dropWhile is_space s" by (rule takeWhile_dropWhile_id[symmetric])
  also have "dropWhile is_space s = trim s @ ?b" by (rule trim_suffix)
  finally have s: "s = ?a @ trim s @ ?b" .
  have a: "list_all is_space ?a" by (simp add: list_all_iff) (blast dest: set_takeWhileD)
  have b: "list_all is_space ?b" by (simp add: list_all_iff) (blast dest: set_takeWhileD)
  from s a b show ?thesis by (intro exI conjI)
qed

lemma trim_ends:
  assumes "trim s \<noteq> []"
  shows "\<not> is_space (hd (trim s))" and "\<not> is_space (last (trim s))"
proof -
  let ?t = "dropWhile is_space s"
  let ?u = "dropWhile is_space (rev ?t)"
  have u: "?u \<noteq> []" using assms by (simp only: trim_def rev_is_Nil_conv not_False_eq_True)
  then have "\<not> is_space (hd ?u)" by (rule hd_dropWhile)
  moreover have "last (trim s) = hd ?u" using u by (simp only: trim_def last_rev)
  ultimately show "\<not> is_space (last (trim s))" by simp
  have t: "?t \<noteq> []"
  proof
    assume "?t = []"
    then have "?u = []" by (simp only: rev.simps dropWhile.simps)
    with u show False by simp
  qed
  then have nt: "\<not> is_space (hd ?t)" by (rule hd_dropWhile)
  have "hd ?t = hd (trim s)" using assms trim_suffix[of s] by (metis hd_append2)
  with nt show "\<not> is_space (hd (trim s))" by simp
qed

section \<open>Properties of the CSV bridge\<close>

lemma push_open: "is_open s \<Longrightarrow> is_open (push c s)"
  by (simp add: push_def is_open_def)

lemma push_chunks: "is_open s \<Longrightarrow> chunks (push c s) = chunks s @ [c]"
  by (simp add: push_def)

lemma onRow_known_headers:
  "headers st = Some hs \<Longrightarrow>
   onRow r st = st\<lparr>csvStream := push (dataLine hs r) (csvStream st), rowCount := rowCount st + 1\<rparr>"
  by (simp add: onRow_def)

lemma onRow_first:
  "headers st = None \<Longrightarrow>
   onRow r st = st\<lparr>headers := Some (Object_keys r),
                    csvStream := push (dataLine (Object_keys r) r) (push (headerLine (Object_keys r)) (csvStream st)),
                    rowCount := rowCount st + 1\<rparr>"
  by (simp add: onRow_def)

lemma feed_known_headers:
  "headers st = Some hs \<Longrightarrow> is_open (csvStream st) \<Longrightarrow>
   headers (feed rows st) = Some hs \<and> is_open (csvStream (feed rows st)) \<and>
   chunks (csvStream (feed rows st)) = chunks (csvStream st) @ map (dataLine hs) rows \<and>
   rowCount (feed rows st) = rowCount st + length rows \<and>
   streamError (feed rows st) = streamError st"
proof (induction rows arbitrary: st)
  case Nil
  then show ?case by (simp add: feed_def)
next
  case (Cons r rows)
  let ?st = "onRow r st"
  have h: "headers ?st = Some hs" and o: "is_open (csvStream ?st)"
    and c: "chunks (csvStream ?st) = chunks (csvStream st) @ [dataLine hs r]"
    and n: "rowCount ?st = rowCount st + 1" and e: "streamError ?st = streamError st"
    using Cons.prems by (simp_all add: onRow_known_headers push_open push_chunks)
  have "feed (r # rows) st = feed rows ?st" by (simp add: feed_def)
  with Cons.IH[OF h o] c n e show ?case by simp
qed

lemma feed_Cons: "feed (r # rows) st = feed rows (onRow r st)"
  by (simp add: feed_def)

lemma csv_init_simps:
  "headers csv_init = None" "rowCount csv_init = 0" "streamError csv_init = None"
  "is_open (csvStream csv_init)" "chunks (csvStream csv_init) = []"
  "ended (csvStream csv_init) = False" "destroyed (csvStream csv_init) = None"
  by (simp_all add: csv_init_def newReadable_def is_open_def)

lemma onRow_first_facts:
  assumes "headers st = None" "is_open (csvStream st)"
  shows "headers (onRow r st) = Some (Object_keys r)"
    and "is_open (csvStream (onRow r st))"
    and "chunks (csvStream (onRow r st)) =
           chunks (csvStream st) @ [headerLine (Object_keys r), dataLine (Object_keys r) r]"
    and "rowCount (onRow r st) = rowCount st + 1"
    and "streamError (onRow r st) = streamError st"
  using assms by (simp_all add: onRow_first push_open push_chunks)


lemma digit_value_digit_char: "d < 10 \<Longrightarrow> digit_value (digit_char d) = d"
proof -
  assume "d < 10"
  then have "d \<in> {0,1,2,3,4,5,6,7,8,9}" by auto
  then show ?thesis by (auto simp: digit_value_def digit_char_def)
qed

lemma decimal_value_snoc: "decimal_value (s @ [c]) = 10 * decimal_value s + digit_value c"
  by (simp add: decimal_value_def)

lemma decimal_value_string_of_nat: "decimal_value (string_of_nat n) = n"
proof (induction n rule: string_of_nat.induct)
  case (1 n)
  show ?case
  proof (cases "n < 10")
    case True
    then have "string_of_nat n = [digit_char n]" by (subst string_of_nat.simps) simp
    with True show ?thesis by (simp add: decimal_value_def digit_value_digit_char)
  next
    case False
    have "string_of_nat n = string_of_nat (n div 10) @ [digit_char (n mod 10)]"
      using False by (subst string_of_nat.simps) simp
    then show ?thesis using 1[OF False] by (simp add: decimal_value_snoc digit_value_digit_char)
  qed
qed





section \<open>Properties of the streaming query executor\<close>

lemma settle_Pending: "settle react v (Pending, s) = (v, react v s)"
  by (simp add: settle_def)

lemma settle_settled: "fst ps \<noteq> Pending \<Longrightarrow> settle react v ps = ps"
  by (cases "fst ps") (simp_all add: settle_def)

lemma stream_step_settled: "fst ps \<noteq> Pending \<Longrightarrow> fst (stream_step f react ps ev) = fst ps"
  by (cases ev) (simp_all add: settle_settled)

lemma settled_stays:
  "fst ps \<noteq> Pending \<Longrightarrow> fst (foldl (stream_step f react) ps evs) = fst ps"
proof (induction evs arbitrary: ps)
  case Nil
  then show ?case by simp
next
  case (Cons ev evs)
  have "fst (stream_step f react ps ev) \<noteq> Pending"
    using Cons.prems by (simp add: stream_step_settled)
  from Cons.IH[OF this] show ?case using Cons.prems by (simp add: stream_step_settled)
qed

lemma data_events_deliver:
  "foldl (stream_step f react) (p, s) (map Data rows) = (p, foldl (\<lambda>s r. f r s) s rows)"
  by (induction rows arbitrary: s) simp_all

lemma resolved_needs_end:
  "fst (foldl (stream_step f react) (Pending, s) evs) = Resolved \<Longrightarrow>
   \<exists>rows post. evs = map Data rows @ End # post"
proof (induction evs arbitrary: s)
  case Nil
  then show ?case by simp
next
  case (Cons ev evs)
  show ?case
  proof (cases ev)
    case (Data r)
    with Cons.prems have "fst (foldl (stream_step f react) (Pending, f r s) evs) = Resolved" by simp
    from Cons.IH[OF this] obtain rows post where "evs = map Data rows @ End # post" by blast
    then have "ev # evs = map Data (r # rows) @ End # post" using Data by simp
    then show ?thesis by blast
  next
    case (StreamError e)
    have "fst (foldl (stream_step f react) (Rejected e, react (Rejected e) s) evs) = Rejected e"
      by (simp add: settled_stays)
    with Cons.prems StreamError show ?thesis by (simp add: settle_Pending)
  next
    case End
    then have "ev # evs = map Data [] @ End # evs" by simp
    then show ?thesis by blast
  qed
qed

lemma executeStream_end:
  "executeStream f react s (CompleteOk (map Data rows @ End # post)) =
     foldl (stream_step f react) (Resolved, react Resolved (foldl (\<lambda>s r. f r s) s rows)) post"
  by (simp add: executeStream_def data_events_deliver settle_Pending)

lemma executeStream_error:
  "executeStream f react s (CompleteOk (map Data rows @ StreamError e # post)) =
     foldl (stream_step f react) (Rejected e, react (Rejected e) (foldl (\<lambda>s r. f r s) s rows)) post"
  by (simp add: executeStream_def data_events_deliver settle_Pending)

section \<open>Properties of the connection options\<close>

lemma extractPrivateKey_no_passphrase:
  "passphrase = None \<or> passphrase = Some [] \<Longrightarrow>
   extractPrivateKey C pk passphrase = Inr (formatPrivateKey C pk)"
  by (auto simp add: extractPrivateKey_def)

lemma extractPrivateKey_passphrase:
  "passphrase \<noteq> None \<Longrightarrow> passphrase \<noteq> Some [] \<Longrightarrow>
   extractPrivateKey C pk passphrase = spec_pkcs8 C (formatPrivateKey C pk) passphrase"
  by (cases passphrase) (simp_all add: extractPrivateKey_def spec_pkcs8_def Let_def)

section \<open>Properties of the node\<close>

lemma andThen_simps:
  "andThen (log, Returned x) f = f log x"
  "andThen (log, Threw e) f = (log, Threw e)"
  "andThen (log, Hangs) f = (log, Hangs)"
  by (simp_all add: andThen_def)

lemma execute_result:
  "execute env log q b =
     (log @ [Execute q b],
      case executeResult env (log @ [Execute q b]) of Inl e \<Rightarrow> Threw e | Inr rows \<Rightarrow> Returned rows)"
  by (simp add: execute_def Let_def)

lemma execute_not_Hangs: "snd (execute env log q b) \<noteq> Hangs"
  by (simp add: execute_result split: sum.split)

lemma executeEach_log:
  "\<exists>m\<le>length bs. fst (executeEach env q bs log) = log @ map (Execute q) (take m bs) \<and>
      snd (executeEach env q bs log) \<noteq> Hangs \<and>
      (snd (executeEach env q bs log) = Returned () \<longrightarrow> m = length bs)"
proof (induction bs arbitrary: log)
  case Nil
  then show ?case by simp
next
  case (Cons b bs)
  show ?case
  proof (cases "executeResult env (log @ [Execute q b])")
    case (Inl e)
    then have "executeEach env q (b # bs) log = (log @ [Execute q b], Threw e)"
      by (simp add: execute_result andThen_simps)
    then have "fst (executeEach env q (b # bs) log) = log @ map (Execute q) (take 1 (b # bs)) \<and>
      snd (executeEach env q (b # bs) log) \<noteq> Hangs \<and>
      (snd (executeEach env q (b # bs) log) = Returned () \<longrightarrow> 1 = length (b # bs))" by simp
    moreover have "1 \<le> length (b # bs)" by simp
    ultimately show ?thesis by blast
  next
    case (Inr rows)
    then have eq: "executeEach env q (b # bs) log = executeEach env q bs (log @ [Execute q b])"
      by (simp add: execute_result andThen_simps)
    from Cons.IH[of "log @ [Execute q b]"] obtain m where m: "m \<le> length bs"
      "fst (executeEach env q bs (log @ [Execute q b])) = (log @ [Execute q b]) @ map (Execute q) (take m bs)"
      "snd (executeEach env q bs (log @ [Execute q b])) \<noteq> Hangs"
      "snd (executeEach env q bs (log @ [Execute q b])) = Returned () \<longrightarrow> m = length bs"
      by blast
    have "Suc m \<le> length (b # bs)" using m(1) by simp
    moreover have "fst (executeEach env q (b # bs) log) = log @ map (Execute q) (take (Suc m) (b # bs))"
      using m(2) eq by simp
    moreover have "snd (executeEach env q (b # bs) log) \<noteq> Hangs" using m(3) eq by simp
    moreover have "snd (executeEach env q (b # bs) log) = Returned () \<longrightarrow> Suc m = length (b # bs)"
      using m(4) eq by simp
    ultimately show ?thesis by blast
  qed
qed


lemma getProp_copied:
  "k \<in> set cols \<Longrightarrow> getProp (map (\<lambda>c. (c, f c)) cols) k = f k"
proof -
  assume "k \<in> set cols"
  then have "map_of (map (\<lambda>c. (c, f c)) cols) k = Some (f k)"
    by (induction cols) auto
  then show ?thesis by (simp add: getProp_def)
qed

lemma copied_values: "Object_values (map (\<lambda>c. (c, f c)) cols) = map f cols"
  by (simp add: Object_values_def comp_def)

lemma updateKey_in_updateColumns: "k \<in> set (updateColumns s k)"
  by (simp add: updateColumns_def Let_def)

lemma update_binds:
  "map (\<lambda>element. map BVal (Object_values element @ [getProp element k]))
       (copyInputItems items (updateColumns s k)) =
   map (\<lambda>item. map BVal (map (getProp item) (updateColumns s k) @ [getProp item k])) items"
  by (simp add: copyInputItems_def copied_values getProp_copied[OF updateKey_in_updateColumns] comp_def)

lemma insert_binds:
  "map (\<lambda>element. BRow (Object_values element)) (copyInputItems items cols) =
   map (\<lambda>item. BRow (map (getProp item) cols)) items"
  by (simp add: copyInputItems_def copied_values comp_def)

lemma connect_result:
  "connect env log =
     (log @ [Connect], case connectResult env (log @ [Connect]) of Some e \<Rightarrow> Threw e | None \<Rightarrow> Returned ())"
  by (simp add: connect_def Let_def)

lemma destroy_result:
  "destroy env log =
     (log @ [Destroy], case destroyResult env (log @ [Destroy]) of Some e \<Rightarrow> Threw e | None \<Rightarrow> Returned ())"
  by (simp add: destroy_def Let_def)

lemma Snowflake_execute_connected:
  assumes "getConnectionOptions C credentials = Inr opts"
      and "connectResult env [CreateConnection opts, Connect] = None"
  shows "Snowflake_execute C env credentials P items =
           andThen (runOperation env P items [CreateConnection opts, Connect])
             (\<lambda>log2 returnData.
                andThen (destroy env log2) (\<lambda>log3 _. (log3, Returned [returnData])))"
  using assms by (simp add: Snowflake_execute_def connect_result andThen_simps)

lemma andThen_return: "andThen m (\<lambda>log x. (log, Returned x)) = m"
proof -
  obtain l r where "m = (l, r)" by (cases m)
  then show ?thesis by (cases r) (simp_all add: andThen_simps)
qed

lemma runOperation_insert:
  "p_operation P = ''insert'' \<Longrightarrow> runOperation env P items log = insertOp env P items log []"
  by (simp add: runOperation_def andThen_simps andThen_return)

lemma runOperation_update:
  "p_operation P = ''update'' \<Longrightarrow> runOperation env P items log = updateOp env P items log []"
  by (simp add: runOperation_def andThen_simps)

lemma runOperation_executeQuery:
  "p_operation P = ''executeQuery'' \<Longrightarrow>
   runOperation env P items log = executeQueryLoop env P [0..<length items] log []"
proof -
  assume a: "p_operation P = ''executeQuery''"
  obtain l r where lr: "executeQueryLoop env P [0..<length items] log [] = (l, r)"
    by (cases "executeQueryLoop env P [0..<length items] log []")
  show ?thesis using a lr by (cases r) (simp_all add: runOperation_def andThen_simps)
qed

lemma runOperation_other:
  "p_operation P \<noteq> ''executeQuery'' \<Longrightarrow> p_operation P \<noteq> ''insert'' \<Longrightarrow>
   p_operation P \<noteq> ''update'' \<Longrightarrow> runOperation env P items log = (log, Returned [])"
  by (simp add: runOperation_def andThen_simps)

lemma insertOp_result:
  "insertOp env P items log rd =
     (let cols = map trim (split_comma (p_columns P));
          c = Execute (insertQuery (p_table P) cols) (map (\<lambda>item. BRow (map (getProp item) cols)) items)
      in (log @ [c],
          case executeResult env (log @ [c]) of
            Inl e \<Rightarrow> Threw e
          | Inr rows \<Rightarrow> Returned (rd @ jsonOutputs (copyInputItems items cols))))"
  by (simp add: insertOp_def Let_def insert_binds execute_result andThen_simps split: sum.split)

lemma sample_connection:
  "getConnectionOptions tagged_crypto sample_credential = Inr sample_options"
  "connectResult (sdk_env ex st) l = None"
  "destroyResult (sdk_env ex st) l = None"
  "executeResult (sdk_env ex st) = ex"
  "streamResult (sdk_env ex st) = st"
  "resolveExpressions (sdk_env ex st) i q = q"
  by (simp_all add: getConnectionOptions_def sample_credential_def sample_options_def sdk_env_def)

lemma updateOp_result:
  "updateOp env P items log rd =
     (let k = p_updateKey P; cols = updateColumns (p_columns P) k
      in andThen (executeEach env (updateQuery (p_table P) cols k)
                    (map (\<lambda>item. map BVal (map (getProp item) cols @ [getProp item k])) items) log)
           (\<lambda>log' _. (log', Returned (rd @ jsonOutputs (copyInputItems items cols)))))"
  by (simp only: updateOp_def Let_def update_binds)


lemma executeQueryItem_log:
  "\<exists>c. fst (executeQueryItem env P i log) = log @ [c] \<and> c \<noteq> Destroy"
  by (simp add: executeQueryItem_def Let_def execute_result andThen_simps
        split: sum.split option.split)

lemma executeQueryLoop_log:
  "\<exists>extra. fst (executeQueryLoop env P ixs log rd) = log @ extra \<and> Destroy \<notin> set extra"
proof (induction ixs arbitrary: log rd)
  case Nil
  then show ?case by simp
next
  case (Cons i ixs)
  obtain c where c: "fst (executeQueryItem env P i log) = log @ [c]" "c \<noteq> Destroy"
    using executeQueryItem_log by blast
  obtain l r where lr: "executeQueryItem env P i log = (l, r)"
    by (cases "executeQueryItem env P i log")
  with c have l: "l = log @ [c]" by simp
  show ?case
  proof (cases r)
    case (Returned outs)
    from Cons.IH[of l "rd @ outs"] obtain extra where
      "fst (executeQueryLoop env P ixs l (rd @ outs)) = l @ extra" "Destroy \<notin> set extra" by blast
    then have "fst (executeQueryLoop env P (i # ixs) log rd) = log @ (c # extra) \<and> Destroy \<notin> set (c # extra)"
      using lr Returned l c(2) by (simp add: andThen_simps)
    then show ?thesis by blast
  next
    case (Threw e)
    then have "fst (executeQueryLoop env P (i # ixs) log rd) = log @ [c] \<and> Destroy \<notin> set [c]"
      using lr l c(2) by (simp add: andThen_simps)
    then show ?thesis by blast
  next
    case Hangs
    then have "fst (executeQueryLoop env P (i # ixs) log rd) = log @ [c] \<and> Destroy \<notin> set [c]"
      using lr l c(2) by (simp add: andThen_simps)
    then show ?thesis by blast
  qed
qed

lemma updateOp_log:
  "\<exists>extra. fst (updateOp env P items log rd) = log @ extra \<and> Destroy \<notin> set extra"
proof -
  let ?q = "updateQuery (p_table P) (updateColumns (p_columns P) (p_updateKey P)) (p_updateKey P)"
  let ?bs = "map (\<lambda>item. map BVal (map (getProp item) (updateColumns (p_columns P) (p_updateKey P))
                                        @ [getProp item (p_updateKey P)])) items"
  obtain l r where lr: "executeEach env ?q ?bs log = (l, r)"
    by (cases "executeEach env ?q ?bs log")
  from executeEach_log[of ?bs env ?q log] lr obtain m where "l = log @ map (Execute ?q) (take m ?bs)"
    by auto
  moreover have "Destroy \<notin> set (map (Execute ?q) (take m ?bs))" by auto
  moreover have "fst (updateOp env P items log rd) = l"
    using lr by (cases r) (simp_all add: updateOp_result Let_def andThen_simps)
  ultimately show ?thesis by blast
qed

lemma insertOp_log:
  "\<exists>extra. fst (insertOp env P items log rd) = log @ extra \<and> Destroy \<notin> set extra"
  by (simp add: insertOp_result Let_def)

lemma runOperation_log:
  "\<exists>extra. fst (runOperation env P items log) = log @ extra \<and> Destroy \<notin> set extra"
proof -
  consider (q) "p_operation P = ''executeQuery''" | (i) "p_operation P = ''insert''"
    | (u) "p_operation P = ''update''"
    | (o) "p_operation P \<noteq> ''executeQuery''" "p_operation P \<noteq> ''insert''" "p_operation P \<noteq> ''update''"
    by blast
  then show ?thesis
  proof cases
    case q
    then show ?thesis using executeQueryLoop_log by (simp add: runOperation_executeQuery)
  next
    case i
    then show ?thesis using insertOp_log by (simp add: runOperation_insert)
  next
    case u
    then show ?thesis using updateOp_log by (simp add: runOperation_update)
  next
    case o
    then show ?thesis by (simp add: runOperation_other)
  qed
qed

lemma snd_settle_recording: "snd (settle (\<lambda>_ rs. rs) v ps) = snd ps"
  by (cases "fst ps") (simp_all add: settle_def)

lemma recording_rows:
  "snd (foldl (stream_step (\<lambda>r rs. rs @ [r]) (\<lambda>_ rs. rs)) ps evs) = snd ps @ data_rows evs"
proof (induction evs arbitrary: ps)
  case Nil
  then show ?case by simp
next
  case (Cons ev evs)
  show ?case by (cases ev) (simp_all add: Cons.IH snd_settle_recording)
qed

lemma onRow_calls_simps:
  "onRow_calls (CompleteOk evs) = data_rows evs"
  "onRow_calls (CompleteError e) = []"
  by (simp_all add: onRow_calls_def executeStream_def recording_rows snd_settle_recording)

lemma rowCount_onRow: "rowCount (onRow r st) = rowCount st + 1"
  by (simp add: onRow_def Let_def split: option.split)

lemma rowCount_onSettled: "rowCount (onSettled p st) = rowCount st"
  by (cases p) (simp_all add: onSettled_def)

lemma rowCount_settle: "rowCount (snd (settle onSettled v ps)) = rowCount (snd ps)"
  by (cases "fst ps") (simp_all add: settle_def rowCount_onSettled)

lemma rowCount_events:
  "rowCount (snd (foldl (stream_step onRow onSettled) ps evs)) = rowCount (snd ps) + length (data_rows evs)"
proof (induction evs arbitrary: ps)
  case Nil
  then show ?case by simp
next
  case (Cons ev evs)
  show ?case by (cases ev) (simp_all add: Cons.IH rowCount_onRow rowCount_settle)
qed

lemma csv_rowCount:
  "rowCount (snd (executeStream onRow onSettled csv_init run)) = length (onRow_calls run)"
proof (cases run)
  case (CompleteError e)
  then show ?thesis
    by (simp add: executeStream_def onRow_calls_simps rowCount_settle csv_init_simps)
next
  case (CompleteOk evs)
  then show ?thesis
    by (simp add: executeStream_def onRow_calls_simps rowCount_events csv_init_simps)
qed

lemma executeQueryLoop_single:
  "executeQueryLoop env P [i] log rd =
     andThen (executeQueryItem env P i log) (\<lambda>log' outs. (log', Returned (rd @ outs)))"
  by simp

lemma csv_empty_stream:
  "executeStream onRow onSettled csv_init (CompleteOk [End]) =
     (Resolved, csv_init\<lparr>csvStream := \<lparr>chunks = [], ended = True, destroyed = None\<rparr>\<rparr>)"
  by (simp add: executeStream_def settle_def onSettled_def push_null_def is_open_def
        csv_init_def newReadable_def)

lemma feed_from_init:
  "is_open (csvStream (feed rows csv_init)) \<and> streamError (feed rows csv_init) = None"
proof (cases rows)
  case Nil
  then show ?thesis by (simp add: feed_def csv_init_simps)
next
  case (Cons r rs)
  note f = onRow_first_facts[OF csv_init_simps(1) csv_init_simps(4), of r]
  from feed_known_headers[OF f(1) f(2), of rs] f(5) show ?thesis
    by (simp add: Cons feed_Cons csv_init_simps)
qed

lemma push_closed: "\<not> is_open s \<Longrightarrow> push c s = s"
  by (simp add: push_def)

lemma onRow_closed:
  "\<not> is_open (csvStream st) \<Longrightarrow>
   csvStream (onRow r st) = csvStream st \<and> streamError (onRow r st) = streamError st"
  by (simp add: onRow_def Let_def push_closed split: option.split)

lemma closed_stream_frozen:
  "fst ps \<noteq> Pending \<Longrightarrow> \<not> is_open (csvStream (snd ps)) \<Longrightarrow>
   fst (foldl (stream_step onRow onSettled) ps evs) = fst ps \<and>
   csvStream (snd (foldl (stream_step onRow onSettled) ps evs)) = csvStream (snd ps) \<and>
   streamError (snd (foldl (stream_step onRow onSettled) ps evs)) = streamError (snd ps)"
proof (induction evs arbitrary: ps)
  case Nil
  then show ?case by simp
next
  case (Cons ev evs)
  let ?ps = "stream_step onRow onSettled ps ev"
  have s: "fst ?ps = fst ps \<and> csvStream (snd ?ps) = csvStream (snd ps) \<and>
           streamError (snd ?ps) = streamError (snd ps)"
    using Cons.prems by (cases ev) (simp_all add: onRow_closed settle_settled)
  then have "fst ?ps \<noteq> Pending" "\<not> is_open (csvStream (snd ?ps))" using Cons.prems by simp_all
  from Cons.IH[OF this] s show ?case by simp
qed

lemma csv_stream_error_state:
  assumes "st = snd (executeStream onRow onSettled csv_init (CompleteOk (map Data rows @ StreamError e # post)))"
  shows "fst (executeStream onRow onSettled csv_init (CompleteOk (map Data rows @ StreamError e # post))) = Rejected e"
    and "streamError st = Some e"
    and "destroyed (csvStream st) = Some e"
    and "\<not> ended (csvStream st)"
    and "chunks (csvStream st) = chunks (csvStream (feed rows csv_init))"
proof -
  let ?s1 = "onSettled (Rejected e) (feed rows csv_init)"
  have run: "executeStream onRow onSettled csv_init (CompleteOk (map Data rows @ StreamError e # post)) =
          foldl (stream_step onRow onSettled) (Rejected e, ?s1) post"
    by (simp add: executeStream_error feed_def)
  have o: "is_open (csvStream (feed rows csv_init))" "streamError (feed rows csv_init) = None"
    using feed_from_init by simp_all
  have s1: "streamError ?s1 = Some e" "destroyed (csvStream ?s1) = Some e"
    "\<not> ended (csvStream ?s1)" "chunks (csvStream ?s1) = chunks (csvStream (feed rows csv_init))"
    "\<not> is_open (csvStream ?s1)"
    using o(1) by (simp_all add: onSettled_def destroy_stream_def is_open_def)
  have "fst (Rejected e, ?s1) \<noteq> Pending" "\<not> is_open (csvStream (snd (Rejected e, ?s1)))"
    using s1(5) by simp_all
  from closed_stream_frozen[OF this, of post] run assms
  have fr: "fst (executeStream onRow onSettled csv_init (CompleteOk (map Data rows @ StreamError e # post))) = Rejected e"
    "csvStream st = csvStream ?s1" "streamError st = streamError ?s1"
    by simp_all
  show "fst (executeStream onRow onSettled csv_init (CompleteOk (map Data rows @ StreamError e # post))) = Rejected e"
    by (rule fr(1))
  show "streamError st = Some e" using fr(3) s1(1) by simp
  show "destroyed (csvStream st) = Some e" using fr(2) s1(2) by simp
  show "\<not> ended (csvStream st)" using fr(2) s1(3) by simp
  show "chunks (csvStream st) = chunks (csvStream (feed rows csv_init))" using fr(2) s1(4) by simp
qed

lemma executeQueryLoop_append:
  "executeQueryLoop env P (xs @ ys) log rd =
     andThen (executeQueryLoop env P xs log rd) (\<lambda>log' rd'. executeQueryLoop env P ys log' rd')"
proof (induction xs arbitrary: log rd)
  case Nil
  then show ?case by (simp add: andThen_simps)
next
  case (Cons i xs)
  obtain l r where lr: "executeQueryItem env P i log = (l, r)"
    by (cases "executeQueryItem env P i log")
  show ?case using lr by (cases r) (simp_all add: andThen_simps Cons.IH)
qed

lemma executeQueryLoop_failing_item:
  assumes "j < n"
      and "executeQueryLoop env P [0..<j] log [] = (logj, Returned acc)"
      and "executeQueryItem env P j logj = (log', Threw e)"
  shows "executeQueryLoop env P [0..<n] log [] = (log', Threw e)"
proof -
  have "[0..<n] = [0..<j] @ j # [Suc j..<n]"
    using assms(1) by (metis less_imp_le_nat upt_add_eq_append upt_conv_Cons le0 le_add_diff_inverse)
  then show ?thesis using assms(2,3) by (simp add: executeQueryLoop_append andThen_simps)
qed

lemma executeQueryItem_stream_error:
  assumes "p_outputFormat P j = ''csv''"
      and "call = ExecuteStream (resolveExpressions env j (p_query P j)) []"
      and "streamResult env (log @ [call]) = CompleteOk (map Data rows @ StreamError e # post)"
      and "st = snd (executeStream onRow onSettled csv_init (CompleteOk (map Data rows @ StreamError e # post)))"
  shows "executeQueryItem env P j log =
           (log @ [call],
            Threw (case prepareBinaryData env (csvStream st) of Inl x \<Rightarrow> x | Inr binaryData \<Rightarrow> e))"
proof -
  note f = csv_stream_error_state[OF assms(4)]
  show ?thesis
    using assms(1,3) f(1,2) unfolding assms(2) assms(4)
    by (simp add: executeQueryItem_def Let_def split: sum.split)
qed

section \<open>The claims\<close>

subsection \<open>The header line and the fixed columns\<close>



subsection \<open>The serialisation of a field\<close>



subsection \<open>Settlement of the streaming promise\<close>

text \<open>
  Claim C3. The promise of \<^verbatim>\<open>executeStream\<close> resolves only at an \<^verbatim>\<open>end\<close> event
  that follows row events alone, after every row before it was handed to the callback in
  arrival order; it rejects with the error of the completion callback, and with the
  error of an \<^verbatim>\<open>error\<close> event of the row stream.
\<close>

theorem executeStream_settles:
  "(fst (executeStream f react s run) = Resolved \<longrightarrow>
      (\<exists>rows post. run = CompleteOk (map Data rows @ End # post))) \<and>
   executeStream f react s (CompleteOk (map Data rows @ End # post)) =
     foldl (stream_step f react) (Resolved, react Resolved (foldl (\<lambda>s r. f r s) s rows)) post \<and>
   fst (executeStream f react s (CompleteOk (map Data rows @ End # post))) = Resolved \<and>
   executeStream f react s (CompleteError e) = (Rejected e, react (Rejected e) s) \<and>
   executeStream f react s (CompleteOk (map Data rows @ StreamError e # post)) =
     foldl (stream_step f react) (Rejected e, react (Rejected e) (foldl (\<lambda>s r. f r s) s rows)) post \<and>
   fst (executeStream f react s (CompleteOk (map Data rows @ StreamError e # post))) = Rejected e"
proof -
  have a: "fst (executeStream f react s run) = Resolved \<longrightarrow>
      (\<exists>rows post. run = CompleteOk (map Data rows @ End # post))"
  proof (cases run)
    case (CompleteError e')
    then show ?thesis by (simp add: executeStream_def settle_Pending)
  next
    case (CompleteOk evs)
    then show ?thesis using resolved_needs_end[of f react s evs] by (simp add: executeStream_def)
  qed
  have b: "fst (executeStream f react s (CompleteOk (map Data rows @ End # post))) = Resolved"
    by (simp add: executeStream_end settled_stays)
  have c: "executeStream f react s (CompleteError e) = (Rejected e, react (Rejected e) s)"
    by (simp add: executeStream_def settle_Pending)
  have d: "fst (executeStream f react s (CompleteOk (map Data rows @ StreamError e # post))) = Rejected e"
    by (simp add: executeStream_error settled_stays)
  show ?thesis using a b c d executeStream_end[of f react s rows post]
      executeStream_error[of f react s rows e post] by blast
qed

theorem executeStream_settles_witness:
  "fst (executeStream (\<lambda>r rs. rs @ [r]) (\<lambda>_ rs. rs) []
          (CompleteOk [Data [(''id'', JNum 1)], Data [(''id'', JNum 2)], End])) = Resolved \<and>
   (\<exists>rows post. CompleteOk [Data [(''id'', JNum 1)], Data [(''id'', JNum 2)], End] =
        CompleteOk (map Data rows @ End # post)) \<and>
   snd (executeStream (\<lambda>r rs. rs @ [r]) (\<lambda>_ rs. rs) []
          (CompleteOk [Data [(''id'', JNum 1)], Data [(''id'', JNum 2)], End])) =
     [[(''id'', JNum 1)], [(''id'', JNum 2)]]"
  using executeStream_settles[of "\<lambda>r rs. rs @ [r]" "\<lambda>_ rs. rs" "[]"
      "CompleteOk [Data [(''id'', JNum 1)], Data [(''id'', JNum 2)], End]"
      "[[(''id'', JNum 1)], [(''id'', JNum 2)]]" "[]"]
  by (simp add: executeStream_def settle_def)

subsection \<open>A stream error fails the invocation\<close>

text \<open>
  Claim C4. For a query with csv output, when the row stream signals an error after K
  rows were pushed into the chunk sequence, the error is recorded in \<^verbatim>\<open>streamError\<close>
  once (later events do not change it), the chunk sequence is destroyed with that
  error after the chunks of the K rows, and the invocation fails instead of returning a
  record: with that error, whenever the binary data helper fails only with the error
  its stream was destroyed with.
\<close>

theorem csv_stream_error_fails:
  assumes "getConnectionOptions C credentials = Inr opts"
      and "connectResult env [CreateConnection opts, Connect] = None"
      and "p_operation P = ''executeQuery''"
      and "j < length items"
      and "executeQueryLoop env P [0..<j] [CreateConnection opts, Connect] [] = (logj, Returned acc)"
      and "p_outputFormat P j = ''csv''"
      and "call = ExecuteStream (resolveExpressions env j (p_query P j)) []"
      and "streamResult env (logj @ [call]) = CompleteOk (map Data rows @ StreamError e # post)"
      and "st = snd (executeStream onRow onSettled csv_init
                       (CompleteOk (map Data rows @ StreamError e # post)))"
  shows "streamError st = Some e \<and> destroyed (csvStream st) = Some e \<and> \<not> ended (csvStream st) \<and>
         chunks (csvStream st) = chunks (csvStream (feed rows csv_init)) \<and>
         (\<exists>x. Snowflake_execute C env credentials P items = (logj @ [call], Threw x) \<and>
              (x = e \<or> prepareBinaryData env (csvStream st) = Inl x)) \<and>
         ((\<forall>cs x. prepareBinaryData env cs = Inl x \<longrightarrow> destroyed cs = Some x) \<longrightarrow>
            Snowflake_execute C env credentials P items = (logj @ [call], Threw e))"
proof -
  note f = csv_stream_error_state[OF assms(9)]
  let ?x = "case prepareBinaryData env (csvStream st) of Inl x \<Rightarrow> x | Inr binaryData \<Rightarrow> e"
  have item: "executeQueryItem env P j logj = (logj @ [call], Threw ?x)"
    by (rule executeQueryItem_stream_error[OF assms(6,7,8,9)])
  have "runOperation env P items [CreateConnection opts, Connect] = (logj @ [call], Threw ?x)"
    using executeQueryLoop_failing_item[OF assms(4,5) item]
    by (simp add: runOperation_executeQuery[OF assms(3)])
  then have whole: "Snowflake_execute C env credentials P items = (logj @ [call], Threw ?x)"
    by (simp add: Snowflake_execute_connected[OF assms(1,2)] andThen_simps)
  have x: "?x = e \<or> prepareBinaryData env (csvStream st) = Inl ?x"
    by (cases "prepareBinaryData env (csvStream st)") simp_all
  have a: "\<exists>x. Snowflake_execute C env credentials P items = (logj @ [call], Threw x) \<and>
              (x = e \<or> prepareBinaryData env (csvStream st) = Inl x)"
    using whole x by blast
  have b: "Snowflake_execute C env credentials P items = (logj @ [call], Threw e)"
    if h: "\<forall>cs x. prepareBinaryData env cs = Inl x \<longrightarrow> destroyed cs = Some x"
  proof -
    have "?x = e"
    proof (cases "prepareBinaryData env (csvStream st)")
      case (Inl x)
      with h have "destroyed (csvStream st) = Some x" by blast
      with f(3) Inl show ?thesis by simp
    next
      case (Inr b)
      then show ?thesis by simp
    qed
    with whole show ?thesis by simp
  qed
  show ?thesis using f(2,3,4,5) a b by blast
qed

theorem csv_stream_error_fails_witness:
  "getConnectionOptions tagged_crypto sample_credential = Inr sample_options \<and>
   p_operation (sample_params ''executeQuery'' [] []) = ''executeQuery'' \<and>
   p_outputFormat (sample_params ''executeQuery'' [] []) 0 = ''csv'' \<and>
   streamResult
     (sdk_env (\<lambda>_. Inr [])
        (\<lambda>_. CompleteOk [Data [(''id'', JNum 1)], StreamError (Error ''net''), StreamError (Error ''late''), End]))
     ([CreateConnection sample_options, Connect] @ [ExecuteStream ''SELECT * FROM t'' []]) =
     CompleteOk (map Data [[(''id'', JNum 1)]] @ StreamError (Error ''net'') # [StreamError (Error ''late''), End]) \<and>
   streamError (snd (executeStream onRow onSettled csv_init
       (CompleteOk (map Data [[(''id'', JNum 1)]] @ StreamError (Error ''net'') # [StreamError (Error ''late''), End]))))
     = Some (Error ''net'') \<and>
   csvStream (snd (executeStream onRow onSettled csv_init
       (CompleteOk (map Data [[(''id'', JNum 1)]] @ StreamError (Error ''net'') # [StreamError (Error ''late''), End]))))
     = \<lparr>chunks = [''\"id\"\<newline>'', ''1\<newline>''], ended = False, destroyed = Some (Error ''net'')\<rparr> \<and>
   Snowflake_execute tagged_crypto
     (sdk_env (\<lambda>_. Inr [])
        (\<lambda>_. CompleteOk [Data [(''id'', JNum 1)], StreamError (Error ''net''), StreamError (Error ''late''), End]))
     sample_credential (sample_params ''executeQuery'' [] []) [[], []] =
     ([CreateConnection sample_options, Connect] @ [ExecuteStream ''SELECT * FROM t'' []],
      Threw (Error ''net''))"
proof -
  let ?run = "CompleteOk [Data [(''id'', JNum 1)], StreamError (Error ''net''), StreamError (Error ''late''), End]"
  let ?env = "sdk_env (\<lambda>_. Inr []) (\<lambda>_. ?run) :: string env"
  let ?P = "sample_params ''executeQuery'' [] []"
  let ?call = "ExecuteStream ''SELECT * FROM t'' []"
  have h1: "getConnectionOptions tagged_crypto sample_credential = Inr sample_options"
    by (rule sample_connection)
  have h2: "connectResult ?env [CreateConnection sample_options, Connect] = None"
    by (rule sample_connection)
  have h3: "p_operation ?P = ''executeQuery''" by (simp add: sample_params_def)
  have h4: "0 < length [[], [] :: row]" by simp
  have h5: "executeQueryLoop ?env ?P [0..<0] [CreateConnection sample_options, Connect] [] =
              ([CreateConnection sample_options, Connect], Returned [])" by simp
  have h6: "p_outputFormat ?P 0 = ''csv''" by (simp add: sample_params_def)
  have h7: "?call = ExecuteStream (resolveExpressions ?env 0 (p_query ?P 0)) []"
    by (simp add: sample_connection sample_params_def)
  have h8: "streamResult ?env ([CreateConnection sample_options, Connect] @ [?call]) =
              CompleteOk (map Data [[(''id'', JNum 1)]] @ StreamError (Error ''net'') # [StreamError (Error ''late''), End])"
    by (simp add: sample_connection)
  have hp: "\<forall>cs x. prepareBinaryData ?env cs = Inl x \<longrightarrow> destroyed cs = Some x"
    by (simp add: sdk_env_def split: option.split)
  have st: "csvStream (snd (executeStream onRow onSettled csv_init
       (CompleteOk (map Data [[(''id'', JNum 1)]] @ StreamError (Error ''net'') # [StreamError (Error ''late''), End]))))
     = \<lparr>chunks = [''\"id\"\<newline>'', ''1\<newline>''], ended = False, destroyed = Some (Error ''net'')\<rparr>"
    by code_simp
  from csv_stream_error_fails[OF h1 h2 h3 h4 h5 h6 h7 h8 refl] hp
  show ?thesis using h1 h3 h6 h8 st by simp
qed

subsection \<open>Destruction of the connection\<close>

text \<open>
  Claim C5 as stated fails: when connect succeeds and the insert statement fails, the
  invocation fails at that call and destroy is never called.
\<close>

theorem destroy_missing_after_failure:
  "Snowflake_execute tagged_crypto
       (sdk_env (\<lambda>_. Inl (Error ''SQL compilation error'')) (\<lambda>_. CompleteOk [End]))
       sample_credential (sample_params ''insert'' ''a'' []) [[(''a'', JNum 1)]] =
     ([CreateConnection sample_options, Connect, Execute ''INSERT INTO t(a) VALUES (?)'' [BRow [JNum 1]]],
      Threw (Error ''SQL compilation error'')) \<and>
   Destroy \<notin> set (fst (Snowflake_execute tagged_crypto
       (sdk_env (\<lambda>_. Inl (Error ''SQL compilation error'')) (\<lambda>_. CompleteOk [End]))
       sample_credential (sample_params ''insert'' ''a'' []) [[(''a'', JNum 1)]]))"
proof -
  let ?env = "sdk_env (\<lambda>_. Inl (Error ''SQL compilation error'')) (\<lambda>_. CompleteOk [End]) :: string env"
  let ?P = "sample_params ''insert'' ''a'' []"
  have cols: "map trim (split_comma (p_columns ?P)) = [''a'']"
    by (simp add: sample_params_def trim_def is_space_def)
  have p: "p_table ?P = ''t''" "p_operation ?P = ''insert''" by (simp_all add: sample_params_def)
  have "Snowflake_execute tagged_crypto ?env sample_credential ?P [[(''a'', JNum 1)]] =
     ([CreateConnection sample_options, Connect, Execute ''INSERT INTO t(a) VALUES (?)'' [BRow [JNum 1]]],
      Threw (Error ''SQL compilation error''))"
    by (simp add: Snowflake_execute_connected[OF sample_connection(1) sample_connection(2)]
          runOperation_insert[OF p(2)] insertOp_result Let_def cols p(1) insertQuery_def
          sample_connection getProp_def andThen_simps)
  then show ?thesis by simp
qed

text \<open>
  Claim C5, amended. The connection is destroyed at the end on the success path only:
  when connect and the selected operation complete without error, destroy is called
  once, as the last call on the SDK; when a query, insert or update execution fails (or
  never completes), the invocation ends there with that error and destroy is not
  called.
\<close>

theorem destroy_only_after_success:
  assumes "getConnectionOptions C credentials = Inr opts"
      and "connectResult env [CreateConnection opts, Connect] = None"
      and "runOperation env P items [CreateConnection opts, Connect] = (log2, r)"
  shows "Destroy \<notin> set log2 \<and>
         (case r of
            Returned returnData \<Rightarrow>
              Snowflake_execute C env credentials P items =
                (log2 @ [Destroy],
                 case destroyResult env (log2 @ [Destroy]) of
                   Some e \<Rightarrow> Threw e | None \<Rightarrow> Returned [returnData])
          | Threw e \<Rightarrow> Snowflake_execute C env credentials P items = (log2, Threw e)
          | Hangs \<Rightarrow> Snowflake_execute C env credentials P items = (log2, Hangs))"
proof -
  from runOperation_log[of env P items "[CreateConnection opts, Connect]"] assms(3)
  have "Destroy \<notin> set log2" by auto
  moreover have "case r of
            Returned returnData \<Rightarrow>
              Snowflake_execute C env credentials P items =
                (log2 @ [Destroy],
                 case destroyResult env (log2 @ [Destroy]) of
                   Some e \<Rightarrow> Threw e | None \<Rightarrow> Returned [returnData])
          | Threw e \<Rightarrow> Snowflake_execute C env credentials P items = (log2, Threw e)
          | Hangs \<Rightarrow> Snowflake_execute C env credentials P items = (log2, Hangs)"
    using assms(3)
    by (cases r)
       (simp_all add: Snowflake_execute_connected[OF assms(1,2)] andThen_simps destroy_result
          split: option.split)
  ultimately show ?thesis by blast
qed

theorem destroy_only_after_success_witness:
  "getConnectionOptions tagged_crypto sample_credential = Inr sample_options \<and>
   connectResult (sdk_env (\<lambda>l. if length l < 4 then Inr [] else Inl (Error ''timeout'')) (\<lambda>_. CompleteOk [End]))
     [CreateConnection sample_options, Connect] = None \<and>
   runOperation (sdk_env (\<lambda>l. if length l < 4 then Inr [] else Inl (Error ''timeout'')) (\<lambda>_. CompleteOk [End]) :: string env)
       (sample_params ''update'' ''name'' ''id'')
       [[(''id'', JNum 5), (''name'', JStr ''X'')], [(''id'', JNum 6), (''name'', JStr ''Y'')]]
       [CreateConnection sample_options, Connect] =
     ([CreateConnection sample_options, Connect,
       Execute ''UPDATE t SET id = ?,name = ? WHERE id = ?;'' [BVal (JNum 5), BVal (JStr ''X''), BVal (JNum 5)],
       Execute ''UPDATE t SET id = ?,name = ? WHERE id = ?;'' [BVal (JNum 6), BVal (JStr ''Y''), BVal (JNum 6)]],
      Threw (Error ''timeout'')) \<and>
   Snowflake_execute tagged_crypto
       (sdk_env (\<lambda>l. if length l < 4 then Inr [] else Inl (Error ''timeout'')) (\<lambda>_. CompleteOk [End]) :: string env)
       sample_credential (sample_params ''update'' ''name'' ''id'')
       [[(''id'', JNum 5), (''name'', JStr ''X'')], [(''id'', JNum 6), (''name'', JStr ''Y'')]] =
     ([CreateConnection sample_options, Connect,
       Execute ''UPDATE t SET id = ?,name = ? WHERE id = ?;'' [BVal (JNum 5), BVal (JStr ''X''), BVal (JNum 5)],
       Execute ''UPDATE t SET id = ?,name = ? WHERE id = ?;'' [BVal (JNum 6), BVal (JStr ''Y''), BVal (JNum 6)]],
      Threw (Error ''timeout''))"
proof -
  let ?env = "sdk_env (\<lambda>l. if length l < 4 then Inr [] else Inl (Error ''timeout'')) (\<lambda>_. CompleteOk [End]) :: string env"
  let ?P = "sample_params ''update'' ''name'' ''id''"
  let ?items = "[[(''id'', JNum 5), (''name'', JStr ''X'')], [(''id'', JNum 6), (''name'', JStr ''Y'')]]"
  have h1: "getConnectionOptions tagged_crypto sample_credential = Inr sample_options"
    by (rule sample_connection)
  have h2: "connectResult ?env [CreateConnection sample_options, Connect] = None"
    by (rule sample_connection)
  have p: "p_table ?P = ''t''" "p_operation ?P = ''update''" "p_updateKey ?P = ''id''"
    by (simp_all add: sample_params_def)
  have cols: "updateColumns (p_columns ?P) ''id'' = [''id'', ''name'']"
    by (simp add: updateColumns_def sample_params_def trim_def is_space_def)
  have h3: "runOperation ?env ?P ?items [CreateConnection sample_options, Connect] =
     ([CreateConnection sample_options, Connect,
       Execute ''UPDATE t SET id = ?,name = ? WHERE id = ?;'' [BVal (JNum 5), BVal (JStr ''X''), BVal (JNum 5)],
       Execute ''UPDATE t SET id = ?,name = ? WHERE id = ?;'' [BVal (JNum 6), BVal (JStr ''Y''), BVal (JNum 6)]],
      Threw (Error ''timeout''))"
    by (simp add: runOperation_update[OF p(2)] updateOp_result Let_def p cols updateQuery_def
          execute_result sample_connection getProp_def andThen_simps)
  from destroy_only_after_success[OF h1 h2 h3] show ?thesis using h1 h2 h3 by simp
qed

subsection \<open>The update operation\<close>



subsection \<open>The insert operation\<close>



subsection \<open>The reported row count\<close>

text \<open>
  Claim C8. For a query with csv output, the \<^verbatim>\<open>rowCount\<close> of the output record, which
  the message repeats, is the number of times the streaming executor invoked
  \<^verbatim>\<open>onRow\<close>.
\<close>

theorem csv_rowCount_reported:
  assumes "p_outputFormat P i = ''csv''"
      and "executeQueryItem env P i log = (log', Returned outs)"
      and "n = length (onRow_calls (streamResult env
                 (log @ [ExecuteStream (resolveExpressions env i (p_query P i)) []])))"
  shows "\<exists>binaryData. outs = [CsvOut n (''Exported '' @ string_of_nat n @ '' rows to CSV'') binaryData i]"
proof -
  let ?run = "streamResult env (log @ [ExecuteStream (resolveExpressions env i (p_query P i)) []])"
  have n: "rowCount (snd (executeStream onRow onSettled csv_init ?run)) = n"
    using assms(3) by (simp add: csv_rowCount)
  show ?thesis using assms(1,2) n
    by (auto simp add: executeQueryItem_def Let_def split: if_splits sum.splits option.splits)
qed

theorem csv_rowCount_reported_witness:
  "p_outputFormat (sample_params ''executeQuery'' [] []) 0 = ''csv'' \<and>
   executeQueryItem
       (sdk_env (\<lambda>_. Inr [])
          (\<lambda>_. CompleteOk [Data [(''id'', JNum 1), (''name'', JStr ''A'')],
                            Data [(''id'', JNum 2), (''name'', JStr ''B,C'')], End]))
       (sample_params ''executeQuery'' [] []) 0 [] =
     ([ExecuteStream ''SELECT * FROM t'' []],
      Returned [CsvOut 2 ''Exported 2 rows to CSV'' ''\"id\",\"name\"\<newline>1,\"A\"\<newline>2,\"B,C\"\<newline>'' 0]) \<and>
   length (onRow_calls (CompleteOk [Data [(''id'', JNum 1), (''name'', JStr ''A'')],
                            Data [(''id'', JNum 2), (''name'', JStr ''B,C'')], End])) = 2"
proof -
  let ?run = "CompleteOk [Data [(''id'', JNum 1), (''name'', JStr ''A'')],
                            Data [(''id'', JNum 2), (''name'', JStr ''B,C'')], End]"
  let ?env = "sdk_env (\<lambda>_. Inr []) (\<lambda>_. ?run) :: string env"
  let ?P = "sample_params ''executeQuery'' [] []"
  have h1: "p_outputFormat ?P 0 = ''csv''" by (simp add: sample_params_def)
  have h2: "executeQueryItem ?env ?P 0 [] =
     ([ExecuteStream ''SELECT * FROM t'' []],
      Returned [CsvOut 2 ''Exported 2 rows to CSV'' ''\"id\",\"name\"\<newline>1,\"A\"\<newline>2,\"B,C\"\<newline>'' 0])"
    by code_simp
  have h3: "length (onRow_calls (streamResult ?env
                 ([] @ [ExecuteStream (resolveExpressions ?env 0 (p_query ?P 0)) []]))) = 2"
    by (simp add: sample_connection onRow_calls_simps)
  from csv_rowCount_reported[OF h1 h2 h3[symmetric]] show ?thesis
    using h1 h2 h3 by (simp add: sample_connection onRow_calls_simps)
qed

subsection \<open>The private key of a key-pair credential\<close>

text \<open>
  Claim C9 as stated fails: a key without a passphrase is returned as it was formatted,
  whatever its encoding, and is not exported as PKCS8.
\<close>

theorem extractPrivateKey_not_always_pkcs8:
  "extractPrivateKey tagged_crypto ''PKCS1:MIIEow'' None = Inr ''PKCS1:MIIEow'' \<and>
   spec_pkcs8 tagged_crypto (formatPrivateKey tagged_crypto ''PKCS1:MIIEow'') None = Inr ''PKCS8:MIIEow'' \<and>
   extractPrivateKey tagged_crypto ''PKCS1:MIIEow'' None
     \<noteq> spec_pkcs8 tagged_crypto (formatPrivateKey tagged_crypto ''PKCS1:MIIEow'') None"
  by (simp add: extractPrivateKey_def spec_pkcs8_def tagged_crypto_def)

text \<open>
  Claim C9, amended. For a key-pair credential with a non-empty passphrase the private
  key of the connection options is the PKCS8 PEM export of the key read with that
  passphrase; with no passphrase, or an empty one, it is the formatted PEM key itself,
  not transcoded.
\<close>

theorem keyPair_privateKey:
  "(passphrase \<noteq> None \<and> passphrase \<noteq> Some [] \<longrightarrow>
      extractPrivateKey C pk passphrase = spec_pkcs8 C (formatPrivateKey C pk) passphrase) \<and>
   (passphrase = None \<or> passphrase = Some [] \<longrightarrow>
      extractPrivateKey C pk passphrase = Inr (formatPrivateKey C pk)) \<and>
   getConnectionOptions C \<lparr>common = cf, auth = KeyPairAuth user pk passphrase\<rparr> =
     (case extractPrivateKey C pk passphrase of
        Inl e \<Rightarrow> Inl e
      | Inr k \<Rightarrow> Inr \<lparr>opt_common = cf, authenticator = Some ''SNOWFLAKE_JWT'', token = None,
                       username = Some user, privateKey = Some k, password = None\<rparr>)"
proof -
  have c: "getConnectionOptions C \<lparr>common = cf, auth = KeyPairAuth user pk passphrase\<rparr> =
     (case extractPrivateKey C pk passphrase of
        Inl e \<Rightarrow> Inl e
      | Inr k \<Rightarrow> Inr \<lparr>opt_common = cf, authenticator = Some ''SNOWFLAKE_JWT'', token = None,
                       username = Some user, privateKey = Some k, password = None\<rparr>)"
    by (simp add: getConnectionOptions_def split: sum.split)
  show ?thesis
    using extractPrivateKey_no_passphrase[of passphrase C pk]
      extractPrivateKey_passphrase[of passphrase C pk] c by blast
qed

theorem keyPair_privateKey_witness:
  "Some ''secret'' \<noteq> (None :: string option) \<and> Some ''secret'' \<noteq> Some [] \<and>
   extractPrivateKey tagged_crypto ''ENCR8:MIIEow'' (Some ''secret'') = Inr ''PKCS8:MIIEow'' \<and>
   extractPrivateKey tagged_crypto ''PKCS1:MIIEow'' (Some []) = Inr ''PKCS1:MIIEow'' \<and>
   getConnectionOptions tagged_crypto
       \<lparr>common = sample_common, auth = KeyPairAuth ''ann'' ''ENCR8:MIIEow'' (Some ''secret'')\<rparr> =
     Inr \<lparr>opt_common = sample_common, authenticator = Some ''SNOWFLAKE_JWT'', token = None,
           username = Some ''ann'', privateKey = Some ''PKCS8:MIIEow'', password = None\<rparr>"
proof -
  have s: "spec_pkcs8 tagged_crypto (formatPrivateKey tagged_crypto ''ENCR8:MIIEow'') (Some ''secret'')
             = Inr ''PKCS8:MIIEow''"
    by (simp add: spec_pkcs8_def tagged_crypto_def)
  have f: "formatPrivateKey tagged_crypto ''PKCS1:MIIEow'' = ''PKCS1:MIIEow''"
    by (simp add: tagged_crypto_def)
  from keyPair_privateKey[of "Some ''secret''" tagged_crypto "''ENCR8:MIIEow''" sample_common "''ann''"]
    keyPair_privateKey[of "Some []" tagged_crypto "''PKCS1:MIIEow''" sample_common "''ann''"]
  show ?thesis using s f by simp
qed

subsection \<open>An empty result\<close>

text \<open>
  Claim C10. For a query with csv output whose row stream delivers no row before its
  \<^verbatim>\<open>end\<close> event, no header line and no data line is pushed, the chunk sequence is
  closed cleanly, and the invocation succeeds with \<^verbatim>\<open>rowCount\<close> 0 and the message
  \<^verbatim>\<open>Exported 0 rows to CSV\<close>.
\<close>

theorem csv_empty_result:
  assumes "getConnectionOptions C credentials = Inr opts"
      and "connectResult env [CreateConnection opts, Connect] = None"
      and "p_operation P = ''executeQuery''"
      and "p_outputFormat P 0 = ''csv''"
      and "call = ExecuteStream (resolveExpressions env 0 (p_query P 0)) []"
      and "streamResult env [CreateConnection opts, Connect, call] = CompleteOk [End]"
      and "prepareBinaryData env \<lparr>chunks = [], ended = True, destroyed = None\<rparr> = Inr binaryData"
      and "destroyResult env [CreateConnection opts, Connect, call, Destroy] = None"
  shows "csvStream (snd (executeStream onRow onSettled csv_init (CompleteOk [End]))) =
           \<lparr>chunks = [], ended = True, destroyed = None\<rparr> \<and>
         executeQueryItem env P 0 [CreateConnection opts, Connect] =
           ([CreateConnection opts, Connect, call],
            Returned [CsvOut 0 ''Exported 0 rows to CSV'' binaryData 0]) \<and>
         Snowflake_execute C env credentials P [item] =
           ([CreateConnection opts, Connect, call, Destroy],
            Returned [[CsvOut 0 ''Exported 0 rows to CSV'' binaryData 0]])"
proof -
  have z: "string_of_nat 0 = ''0''" by code_simp
  have a: "csvStream (snd (executeStream onRow onSettled csv_init (CompleteOk [End]))) =
           \<lparr>chunks = [], ended = True, destroyed = None\<rparr>"
    by (simp add: csv_empty_stream)
  have b: "executeQueryItem env P 0 [CreateConnection opts, Connect] =
           ([CreateConnection opts, Connect, call],
            Returned [CsvOut 0 ''Exported 0 rows to CSV'' binaryData 0])"
    using assms(4,6,7) unfolding assms(5)
    by (simp add: executeQueryItem_def Let_def csv_empty_stream csv_init_simps z)
  have "runOperation env P [item] [CreateConnection opts, Connect] =
          ([CreateConnection opts, Connect, call],
            Returned [CsvOut 0 ''Exported 0 rows to CSV'' binaryData 0])"
    using b by (simp add: runOperation_executeQuery[OF assms(3)] andThen_simps)
  then have c: "Snowflake_execute C env credentials P [item] =
           ([CreateConnection opts, Connect, call, Destroy],
            Returned [[CsvOut 0 ''Exported 0 rows to CSV'' binaryData 0]])"
    using assms(8)
    by (simp add: Snowflake_execute_connected[OF assms(1,2)] andThen_simps destroy_result)
  show ?thesis using a b c by blast
qed

theorem csv_empty_result_witness:
  "getConnectionOptions tagged_crypto sample_credential = Inr sample_options \<and>
   p_operation (sample_params ''executeQuery'' [] []) = ''executeQuery'' \<and>
   p_outputFormat (sample_params ''executeQuery'' [] []) 0 = ''csv'' \<and>
   streamResult (sdk_env (\<lambda>_. Inr []) (\<lambda>_. CompleteOk [End]) :: string env)
     [CreateConnection sample_options, Connect, ExecuteStream ''SELECT * FROM t'' []] = CompleteOk [End] \<and>
   prepareBinaryData (sdk_env (\<lambda>_. Inr []) (\<lambda>_. CompleteOk [End]))
     \<lparr>chunks = [], ended = True, destroyed = None\<rparr> = Inr [] \<and>
   Snowflake_execute tagged_crypto (sdk_env (\<lambda>_. Inr []) (\<lambda>_. CompleteOk [End]))
       sample_credential (sample_params ''executeQuery'' [] []) [[]] =
     ([CreateConnection sample_options, Connect, ExecuteStream ''SELECT * FROM t'' [], Destroy],
      Returned [[CsvOut 0 ''Exported 0 rows to CSV'' [] 0]])"
proof -
  let ?env = "sdk_env (\<lambda>_. Inr []) (\<lambda>_. CompleteOk [End]) :: string env"
  let ?P = "sample_params ''executeQuery'' [] []"
  let ?call = "ExecuteStream ''SELECT * FROM t'' []"
  have h1: "getConnectionOptions tagged_crypto sample_credential = Inr sample_options"
    by (rule sample_connection)
  have h2: "connectResult ?env [CreateConnection sample_options, Connect] = None"
    by (rule sample_connection)
  have h3: "p_operation ?P = ''executeQuery''" by (simp add: sample_params_def)
  have h4: "p_outputFormat ?P 0 = ''csv''" by (simp add: sample_params_def)
  have h5: "?call = ExecuteStream (resolveExpressions ?env 0 (p_query ?P 0)) []"
    by (simp add: sample_connection sample_params_def)
  have h6: "streamResult ?env [CreateConnection sample_options, Connect, ?call] = CompleteOk [End]"
    by (simp add: sample_connection)
  have h7: "prepareBinaryData ?env \<lparr>chunks = [], ended = True, destroyed = None\<rparr> = Inr []"
    by (simp add: sdk_env_def)
  have h8: "destroyResult ?env [CreateConnection sample_options, Connect, ?call, Destroy] = None"
    by (rule sample_connection)
  from csv_empty_result[OF h1 h2 h3 h4 h5 h6 h7 h8, of "[]"] show ?thesis
    using h1 h3 h4 h6 h7 by simp
qed

end
